theory Spec2Isabelle
  imports Main
begin

section \<open>Token packing of the BLOOM LoRA notebook: the \<open>chunk\<close> function\<close>

text \<open>
  The notebook \<^verbatim>\<open>sagemaker/24_train_bloom_peft_lora/sagemaker-notebook.ipynb\<close> defines one
  function of its own, \<^verbatim>\<open>chunk(sample, chunk_length=2048)\<close>, and maps it over the tokenized
  dataset with \<^verbatim>\<open>partial(chunk, chunk_length=1536)\<close>. It reads and reassigns the global
  dictionary \<^verbatim>\<open>remainder\<close>. The embedding below follows the function statement by
  statement; every exception the statements can raise is a value of \<open>py_error\<close>.
\<close>

subsection \<open>Python values\<close>

datatype py_error = KeyError | IndexError | NameError | ZeroDivisionError

text \<open>
  A Python \<^verbatim>\<open>dict\<close> keeps its keys in insertion order, and \<^verbatim>\<open>chunk\<close> reads the first key
  of its argument, so a dictionary is an association list (with distinct keys).
\<close>

type_synonym 'v pydict = "(string \<times> 'v) list"

text \<open>\<^verbatim>\<open>d[k]\<close>: the value under \<open>k\<close>, or \<^verbatim>\<open>KeyError\<close>.\<close>

definition getitem :: "'v pydict \<Rightarrow> string \<Rightarrow> py_error + 'v" where
  "getitem d k = (case map_of d k of None \<Rightarrow> Inl KeyError | Some v \<Rightarrow> Inr v)"

text \<open>\<^verbatim>\<open>d[k] = v\<close>: an existing key keeps its place, a new key goes to the end.\<close>

fun setitem :: "'v pydict \<Rightarrow> string \<Rightarrow> 'v \<Rightarrow> 'v pydict" where
  "setitem [] k v = [(k, v)]"
| "setitem ((k', v') # d) k v = (if k' = k then (k, v) # d else (k', v') # setitem d k v)"

text \<open>
  Slice bounds as Python clamps them: a negative bound counts from the end, and both ends
  are cut to the list.
\<close>

definition clamp_index :: "nat \<Rightarrow> int \<Rightarrow> nat" where
  "clamp_index n i = (if i < 0 then nat (int n + i) else min n (nat i))"

text \<open>\<^verbatim>\<open>t[lo : hi]\<close>\<close>

definition py_slice :: "'a list \<Rightarrow> int \<Rightarrow> int \<Rightarrow> 'a list" where
  "py_slice t lo hi =
     (let a = clamp_index (length t) lo; b = clamp_index (length t) hi
      in take (b - a) (drop a t))"

text \<open>\<^verbatim>\<open>t[lo:]\<close>\<close>

definition py_slice_from :: "'a list \<Rightarrow> int \<Rightarrow> 'a list" where
  "py_slice_from t lo = drop (clamp_index (length t) lo) t"

text \<open>
  \<^verbatim>\<open>range(start, stop, step)\<close> for a step other than zero (\<^verbatim>\<open>chunk\<close> divides by its step
  before it builds the range, so a zero step never reaches it).
\<close>

definition py_range :: "int \<Rightarrow> int \<Rightarrow> int \<Rightarrow> int list" where
  "py_range start stop step =
     (let n = (if 0 < step then nat ((stop - start + step - 1) div step)
               else nat ((start - stop - step - 1) div (- step)))
      in map (\<lambda>j. start + int j * step) [0 ..< n])"

subsection \<open>The global state\<close>

text \<open>
  \<^verbatim>\<open>remainder = {"input_ids": [], "attention_mask": []}\<close> is a global of the notebook. The
  record has this one field; the extension part of the record scheme stands for every other
  global of the notebook (\<^verbatim>\<open>dataset\<close>, \<^verbatim>\<open>tokenizer\<close>, \<^verbatim>\<open>prompt_template\<close>, ...).
\<close>

record notebook_globals =
  remainder :: "int list pydict"

definition remainder_init :: "int list pydict" where
  "remainder_init = [(''input_ids'', []), (''attention_mask'', [])]"

subsection \<open>\<open>chunk\<close>\<close>

text \<open>
  \<^verbatim>\<open>{k: remainder[k] + concatenated_examples[k] for k in concatenated_examples.keys()}\<close>:
  the keys are visited in order and the first one missing from \<^verbatim>\<open>remainder\<close> raises.
\<close>

fun add_remainder :: "int list pydict \<Rightarrow> int list pydict \<Rightarrow> py_error + int list pydict" where
  "add_remainder r [] = Inr []"
| "add_remainder r ((k, v) # ce) =
     (case getitem r k of
        Inl e \<Rightarrow> Inl e
      | Inr rk \<Rightarrow>
          (case add_remainder r ce of
             Inl e \<Rightarrow> Inl e
           | Inr ce' \<Rightarrow> Inr ((k, rk @ v) # ce')))"

text \<open>
  The function returns the outcome of the call (the exception, or the result dictionary)
  and the globals as the call leaves them. The statements, in the source's order:
  \<^enum> concatenate the lists under every key (\<^verbatim>\<open>list(chain(*sample[k]))\<close>);
  \<^enum> put the remainder in front, key by key;
  \<^enum> \<^verbatim>\<open>batch_total_length\<close> is the length under the first key of \<^verbatim>\<open>sample\<close>
    (\<^verbatim>\<open>list(sample.keys())[0]\<close> raises \<^verbatim>\<open>IndexError\<close> on an empty dictionary);
  \<^enum> \<^verbatim>\<open>batch_chunk_length\<close> is assigned only \<^verbatim>\<open>if batch_total_length >= chunk_length\<close>;
    the floor division raises \<^verbatim>\<open>ZeroDivisionError\<close> for a zero \<^verbatim>\<open>chunk_length\<close>;
  \<^enum> the result comprehension reads \<^verbatim>\<open>batch_chunk_length\<close>: unassigned, it raises
    \<^verbatim>\<open>NameError\<close>, before \<^verbatim>\<open>remainder\<close> is reassigned;
  \<^enum> \<^verbatim>\<open>remainder\<close> is reassigned;
  \<^enum> \<^verbatim>\<open>result["labels"] = result["input_ids"].copy()\<close>, which raises \<^verbatim>\<open>KeyError\<close> when there
    is no such key, after the reassignment.
\<close>

definition chunk ::
  "int list list pydict \<Rightarrow> int \<Rightarrow> 'z notebook_globals_scheme
     \<Rightarrow> (py_error + int list list pydict) \<times> 'z notebook_globals_scheme" where
  "chunk sample chunk_length g =
     (let concatenated_examples = map (\<lambda>(k, v). (k, concat v)) sample in
      case add_remainder (remainder g) concatenated_examples of
        Inl e \<Rightarrow> (Inl e, g)
      | Inr concatenated_examples \<Rightarrow>
          (case sample of
             [] \<Rightarrow> (Inl IndexError, g)
           | (k0, _) # _ \<Rightarrow>
               (case getitem concatenated_examples k0 of
                  Inl e \<Rightarrow> (Inl e, g)
                | Inr t0 \<Rightarrow>
                    (let batch_total_length = int (length t0) in
                     if batch_total_length \<ge> chunk_length then
                       if chunk_length = 0 then (Inl ZeroDivisionError, g)
                       else
                         (let batch_chunk_length =
                                (batch_total_length div chunk_length) * chunk_length;
                              result =
                                map (\<lambda>(k, t).
                                       (k, map (\<lambda>i. py_slice t i (i + chunk_length))
                                             (py_range 0 batch_chunk_length chunk_length)))
                                  concatenated_examples;
                              g' = g\<lparr>remainder :=
                                      map (\<lambda>(k, t). (k, py_slice_from t batch_chunk_length))
                                        concatenated_examples\<rparr>
                          in case getitem result ''input_ids'' of
                               Inl e \<Rightarrow> (Inl e, g')
                             | Inr input_ids \<Rightarrow>
                                 (Inr (setitem result ''labels'' input_ids), g'))
                     else (Inl NameError, g)))))"

text \<open>
  \<^verbatim>\<open>def chunk(sample, chunk_length=2048)\<close>: a call that gives no \<^verbatim>\<open>chunk_length\<close> gets 2048.
\<close>

definition chunk_kw ::
  "int list list pydict \<Rightarrow> int option \<Rightarrow> 'z notebook_globals_scheme
     \<Rightarrow> (py_error + int list list pydict) \<times> 'z notebook_globals_scheme" where
  "chunk_kw sample chunk_length =
     chunk sample (case chunk_length of None \<Rightarrow> 2048 | Some n \<Rightarrow> n)"

subsection \<open>The pipeline\<close>

text \<open>
  The batch that the tokenizer map hands to \<^verbatim>\<open>chunk\<close>: one list of token ids and one
  attention mask per sample, under the keys \<^verbatim>\<open>input_ids\<close> and \<^verbatim>\<open>attention_mask\<close>, in this
  order.
\<close>

definition tokenized :: "int list list \<Rightarrow> int list list \<Rightarrow> int list list pydict" where
  "tokenized ids att = [(''input_ids'', ids), (''attention_mask'', att)]"

text \<open>
  A tokenizer gives every sample one mask entry per token: the lists under the two keys
  have the same lengths, sample by sample.
\<close>

definition same_lengths :: "'a list list \<Rightarrow> 'b list list \<Rightarrow> bool" where
  "same_lengths xs ys = list_all2 (\<lambda>a b. length a = length b) xs ys"

text \<open>
  \<^verbatim>\<open>Dataset.map(f, batched=True)\<close> calls \<open>f\<close> on the batches one after the other and
  collects what the calls return; an exception of a call ends the map, and the dataset is
  not built. How the library cuts the rows into batches is left open: the batches are the
  argument.
\<close>

fun map_batched ::
  "('s \<Rightarrow> 'g \<Rightarrow> (py_error + 'r) \<times> 'g) \<Rightarrow> 's list \<Rightarrow> 'g \<Rightarrow> (py_error + 'r list) \<times> 'g" where
  "map_batched f [] g = (Inr [], g)"
| "map_batched f (b # bs) g =
     (case f b g of
        (Inl e, g') \<Rightarrow> (Inl e, g')
      | (Inr r, g') \<Rightarrow>
          (case map_batched f bs g' of
             (Inl e, g'') \<Rightarrow> (Inl e, g'')
           | (Inr rs, g'') \<Rightarrow> (Inr (r # rs), g'')))"

text \<open>The rows of one column of the mapped dataset: the batches' rows, in order.\<close>

definition column :: "string \<Rightarrow> 'v list pydict list \<Rightarrow> 'v list" where
  "column k rs = concat (map (\<lambda>r. case map_of r k of None \<Rightarrow> [] | Some v \<Rightarrow> v) rs)"

text \<open>
  \<^verbatim>\<open>lm_dataset = ... .map(partial(chunk, chunk_length=1536), batched=True)\<close>
\<close>

definition lm_chunk ::
  "int list list pydict \<Rightarrow> 'z notebook_globals_scheme
     \<Rightarrow> (py_error + int list list pydict) \<times> 'z notebook_globals_scheme" where
  "lm_chunk sample = chunk_kw sample (Some 1536)"

definition lm_dataset ::
  "int list list pydict list \<Rightarrow> 'z notebook_globals_scheme
     \<Rightarrow> (py_error + int list list pydict list) \<times> 'z notebook_globals_scheme" where
  "lm_dataset batches = map_batched lm_chunk batches"

subsection \<open>The packing of the specification\<close>

text \<open>
  The reference of the refinement claim, written from the specification's sentence and not
  from the code: "split the concatenated sequence into consecutive fixed-size blocks of
  length L, discarding a final partial block and retaining it as the new remainder".
\<close>

function packing_spec_split :: "nat \<Rightarrow> 'a list \<Rightarrow> 'a list list \<times> 'a list" where
  "packing_spec_split L xs =
     (if L = 0 \<or> length xs < L then ([], xs)
      else (case packing_spec_split L (drop L xs) of (bs, r) \<Rightarrow> (take L xs # bs, r)))"
  by pat_completeness auto
termination
  by (relation "measure (\<lambda>(L, xs). length xs)") auto

declare packing_spec_split.simps [simp del]

text \<open>
  "Concatenate all sequences within a processing batch (preserving order), prepend any
  leftover tokens retained from the previous batch", then split.
\<close>

definition packing_spec_step :: "nat \<Rightarrow> 'a list \<Rightarrow> 'a list list \<Rightarrow> 'a list list \<times> 'a list" where
  "packing_spec_step L r batch = packing_spec_split L (r @ concat batch)"

text \<open>
  "A straightforward stateful fold over a sequence of token lists": a left fold whose
  accumulator holds the blocks emitted so far and the remainder.
\<close>

definition packing_spec_fold :: "nat \<Rightarrow> 'a list list list \<Rightarrow> 'a list list \<times> 'a list" where
  "packing_spec_fold L batches =
     foldl (\<lambda>(out, r) batch. case packing_spec_step L r batch of (bs, r') \<Rightarrow> (out @ bs, r'))
       ([], []) batches"

subsection \<open>Slices and ranges in terms of \<open>take\<close> and \<open>drop\<close>\<close>

text \<open>
  The blocks that the result comprehension builds for a positive \<^verbatim>\<open>chunk_length\<close>, with
  natural numbers: \<open>n\<close> slices of width \<open>l\<close>. Lemma \<open>code_blocks\<close> below shows that the
  comprehension of the code computes this list.
\<close>

definition blocks :: "nat \<Rightarrow> nat \<Rightarrow> 'a list \<Rightarrow> 'a list list" where
  "blocks l n t = map (\<lambda>j. take l (drop (j * l) t)) [0 ..< n]"

lemma py_range_pos:
  assumes "0 < L" and "0 \<le> n"
  shows "py_range 0 (n * L) L = map (\<lambda>j. int j * L) [0 ..< nat n]"
proof -
  have "(n * L + L - 1) div L = ((L - 1) + n * L) div L"
    by (simp add: algebra_simps)
  also have "\<dots> = n"
    using assms by (simp add: div_pos_pos_trivial)
  finally have "(n * L + L - 1) div L = n" .
  then show ?thesis
    using assms by (simp add: py_range_def)
qed

lemma py_range_neg:
  assumes "L < 0" and "0 \<le> b"
  shows "py_range 0 b L = []"
proof -
  have "(- b - L - 1) div (- L) \<le> 0"
  proof (cases "- b - L - 1 < 0")
    case True
    with assms have "(- b - L - 1) div (- L) < 0"
      by (simp only: pos_imp_zdiv_neg_iff neg_0_less_iff_less)
    then show ?thesis by simp
  next
    case False
    with assms have "(- b - L - 1) div (- L) = 0"
      by (intro div_pos_pos_trivial) simp_all
    then show ?thesis by simp
  qed
  then show ?thesis
    using assms by (simp add: py_range_def)
qed

lemma py_slice_block:
  assumes "0 \<le> i" and "0 < L"
  shows "py_slice t i (i + L) = take (nat L) (drop (nat i) t)"
  using assms
  by (auto simp: py_slice_def clamp_index_def Let_def min_def nat_add_distrib)

lemma py_slice_from_nonneg:
  "0 \<le> b \<Longrightarrow> py_slice_from t b = drop (nat b) t"
  by (auto simp: py_slice_from_def clamp_index_def min_def)

lemma code_blocks:
  assumes "0 < L" and "0 \<le> n"
  shows "map (\<lambda>i. py_slice t i (i + L)) (py_range 0 (n * L) L) = blocks (nat L) (nat n) t"
  using assms
  by (simp add: py_range_pos blocks_def py_slice_block nat_mult_distrib o_def)

lemma length_blocks: "length (blocks l n t) = n"
  by (simp add: blocks_def)

lemma concat_blocks: "concat (blocks l n t) = take (n * l) t"
proof (induction n)
  case 0
  show ?case by (simp add: blocks_def)
next
  case (Suc n)
  have "concat (blocks l (Suc n) t) = concat (blocks l n t) @ take l (drop (n * l) t)"
    by (simp add: blocks_def)
  also have "\<dots> = take (n * l + l) t"
    by (simp only: Suc take_add)
  finally show ?case by (simp add: add.commute)
qed

lemma block_length:
  assumes "n * l \<le> length t" and "b \<in> set (blocks l n t)"
  shows "length b = l"
proof -
  from assms(2) obtain j where j: "j < n" and b: "b = take l (drop (j * l) t)"
    by (auto simp: blocks_def)
  from j have "Suc j * l \<le> n * l" by (simp only: Suc_le_eq[symmetric] mult_le_mono1)
  with assms(1) have "j * l + l \<le> length t" by simp
  with b show ?thesis by simp
qed

lemma add_remainder_tokenized:
  assumes "getitem r ''input_ids'' = Inr rid" and "getitem r ''attention_mask'' = Inr ratt"
  shows "add_remainder r [(''input_ids'', a), (''attention_mask'', b)]
           = Inr [(''input_ids'', rid @ a), (''attention_mask'', ratt @ b)]"
  using assms by simp

lemma chunk_full_gen:
  assumes L: "0 < L"
    and ar: "add_remainder (remainder g) [(''input_ids'', concat ids), (''attention_mask'', concat att)]
           = Inr [(''input_ids'', s), (''attention_mask'', u)]"
    and T: "L \<le> int (length s)"
  shows "chunk (tokenized ids att) L g =
       (Inr [(''input_ids'', blocks (nat L) (length s div nat L) s),
             (''attention_mask'', blocks (nat L) (length s div nat L) u),
             (''labels'', blocks (nat L) (length s div nat L) s)],
        g\<lparr>remainder := [(''input_ids'', drop (length s div nat L * nat L) s),
                         (''attention_mask'', drop (length s div nat L * nat L) u)]\<rparr>)"
proof -
  let ?T = "int (length s)"
  have n0: "0 \<le> ?T div L" using L by (simp add: pos_imp_zdiv_nonneg_iff)
  have nn: "nat (?T div L) = length s div nat L"
    using L by (metis nat_int nat_div_distrib of_nat_0_le_iff)
  have b0: "0 \<le> ?T div L * L" using n0 L by simp
  have bn: "nat (?T div L * L) = length s div nat L * nat L"
    using n0 L nn by (simp add: nat_mult_distrib)
  show ?thesis
    using L T
    by (simp add: chunk_def tokenized_def ar getitem_def Let_def code_blocks[OF L n0]
        py_slice_from_nonneg[OF b0] nn bn del: add_remainder.simps)
qed

lemma chunk_short_gen:
  assumes ar: "add_remainder (remainder g) [(''input_ids'', concat ids), (''attention_mask'', concat att)]
           = Inr [(''input_ids'', s), (''attention_mask'', u)]"
    and T: "int (length s) < L"
  shows "chunk (tokenized ids att) L g = (Inl NameError, g)"
  using T by (simp add: chunk_def tokenized_def ar getitem_def Let_def del: add_remainder.simps)

lemma chunk_zero_gen:
  assumes ar: "add_remainder (remainder g) [(''input_ids'', concat ids), (''attention_mask'', concat att)]
           = Inr [(''input_ids'', s), (''attention_mask'', u)]"
  shows "chunk (tokenized ids att) 0 g = (Inl ZeroDivisionError, g)"
  by (simp add: chunk_def tokenized_def ar getitem_def Let_def del: add_remainder.simps)

lemma chunk_negative_gen:
  assumes L: "L < 0"
    and ar: "add_remainder (remainder g) [(''input_ids'', concat ids), (''attention_mask'', concat att)]
           = Inr [(''input_ids'', s), (''attention_mask'', u)]"
  shows "chunk (tokenized ids att) L g =
       (Inr [(''input_ids'', []), (''attention_mask'', []), (''labels'', [])],
        g\<lparr>remainder := [(''input_ids'', drop (nat (int (length s) div L * L)) s),
                         (''attention_mask'', drop (nat (int (length s) div L * L)) u)]\<rparr>)"
proof -
  let ?T = "int (length s)"
  have "?T div L \<le> 0" using L by (simp add: neg_imp_zdiv_nonneg_iff div_nonneg_neg_le0)
  then have b0: "0 \<le> ?T div L * L" using L by (simp add: mult_nonpos_nonpos)
  show ?thesis
    using L
    by (simp add: chunk_def tokenized_def ar getitem_def Let_def py_range_neg[OF L b0]
        py_slice_from_nonneg[OF b0] del: add_remainder.simps)
qed

lemma chunk_full:
  assumes L: "0 < L"
    and rid: "getitem (remainder g) ''input_ids'' = Inr rid"
    and ratt: "getitem (remainder g) ''attention_mask'' = Inr ratt"
    and T: "L \<le> int (length (rid @ concat ids))"
  shows "chunk (tokenized ids att) L g =
       (Inr [(''input_ids'', blocks (nat L) (length (rid @ concat ids) div nat L) (rid @ concat ids)),
             (''attention_mask'', blocks (nat L) (length (rid @ concat ids) div nat L) (ratt @ concat att)),
             (''labels'', blocks (nat L) (length (rid @ concat ids) div nat L) (rid @ concat ids))],
        g\<lparr>remainder :=
            [(''input_ids'', drop (length (rid @ concat ids) div nat L * nat L) (rid @ concat ids)),
             (''attention_mask'', drop (length (rid @ concat ids) div nat L * nat L) (ratt @ concat att))]\<rparr>)"
  by (rule chunk_full_gen[OF L add_remainder_tokenized[OF rid ratt] T])

lemma chunk_short:
  assumes rid: "getitem (remainder g) ''input_ids'' = Inr rid"
    and ratt: "getitem (remainder g) ''attention_mask'' = Inr ratt"
    and T: "int (length (rid @ concat ids)) < L"
  shows "chunk (tokenized ids att) L g = (Inl NameError, g)"
  by (rule chunk_short_gen[OF add_remainder_tokenized[OF rid ratt] T])

lemma chunk_zero:
  assumes rid: "getitem (remainder g) ''input_ids'' = Inr rid"
    and ratt: "getitem (remainder g) ''attention_mask'' = Inr ratt"
  shows "chunk (tokenized ids att) 0 g = (Inl ZeroDivisionError, g)"
  by (rule chunk_zero_gen[OF add_remainder_tokenized[OF rid ratt]])

lemma chunk_negative:
  assumes L: "L < 0"
    and rid: "getitem (remainder g) ''input_ids'' = Inr rid"
    and ratt: "getitem (remainder g) ''attention_mask'' = Inr ratt"
  shows "chunk (tokenized ids att) L g =
       (Inr [(''input_ids'', []), (''attention_mask'', []), (''labels'', [])],
        g\<lparr>remainder :=
            [(''input_ids'', drop (nat (int (length (rid @ concat ids)) div L * L)) (rid @ concat ids)),
             (''attention_mask'', drop (nat (int (length (rid @ concat ids)) div L * L)) (ratt @ concat att))]\<rparr>)"
  by (rule chunk_negative_gen[OF L add_remainder_tokenized[OF rid ratt]])

subsection \<open>Dictionaries and lengths\<close>

lemma same_lengths_concat:
  "same_lengths xs ys \<Longrightarrow> length (concat xs) = length (concat ys)"
  unfolding same_lengths_def by (induction xs ys rule: list_all2_induct) simp_all

lemma blocks_same_lengths:
  "length s = length u \<Longrightarrow> same_lengths (blocks l n s) (blocks l n u)"
  by (simp add: same_lengths_def blocks_def list_all2_conv_all_nth)

lemma getitem_setitem_same: "getitem (setitem d k v) k = Inr v"
  by (induction d) (auto simp: getitem_def)

lemma getitem_setitem_other: "k' \<noteq> k \<Longrightarrow> getitem (setitem d k v) k' = getitem d k'"
  by (induction d) (auto simp: getitem_def)

lemma drop_blocks_length:
  "0 < l \<Longrightarrow> length (drop (length s div l * l) s) < l"
  by (simp add: minus_div_mult_eq_mod)

lemma getitem_tokenized_remainder:
  "getitem [(''input_ids'', a), (''attention_mask'', b)] ''input_ids'' = Inr a"
  "getitem [(''input_ids'', a), (''attention_mask'', b)] ''attention_mask'' = Inr b"
  by (simp_all add: getitem_def)

lemma getitem_result:
  "getitem [(''input_ids'', a), (''attention_mask'', b), (''labels'', c)] ''input_ids'' = Inr a"
  "getitem [(''input_ids'', a), (''attention_mask'', b), (''labels'', c)] ''attention_mask'' = Inr b"
  "getitem [(''input_ids'', a), (''attention_mask'', b), (''labels'', c)] ''labels'' = Inr c"
  by (simp_all add: getitem_def)


subsection \<open>The blocks of the code are the blocks of the specification\<close>

lemma blocks_Suc: "blocks l (Suc n) t = take l t # blocks l n (drop l t)"
proof -
  have "[0 ..< Suc n] = 0 # map Suc [0 ..< n]"
    by (simp add: upt_conv_Cons map_Suc_upt del: upt_Suc)
  then show ?thesis
    by (simp add: blocks_def o_def add.commute del: upt_Suc)
qed

lemma packing_spec_split_blocks:
  "0 < l \<Longrightarrow> packing_spec_split l s = (blocks l (length s div l) s, drop (length s div l * l) s)"
proof (induction l s rule: packing_spec_split.induct)
  case (1 L xs)
  show ?case
  proof (cases "length xs < L")
    case True
    then show ?thesis
      by (subst packing_spec_split.simps) (simp add: blocks_def)
  next
    case False
    with 1 have IH: "packing_spec_split L (drop L xs)
        = (blocks L ((length xs - L) div L) (drop L xs),
           drop ((length xs - L) div L * L) (drop L xs))"
      by simp
    from False 1(2) have d: "length xs div L = Suc ((length xs - L) div L)"
      by (simp add: le_div_geq)
    show ?thesis
      using False 1(2)
      by (subst packing_spec_split.simps) (simp add: IH d blocks_Suc add.commute)
  qed
qed

subsection \<open>A call that returns, and a map that completes\<close>

lemma chunk_tokenized_Inr:
  assumes L: "0 < L"
    and rid: "getitem (remainder g) ''input_ids'' = Inr rid"
    and ratt: "getitem (remainder g) ''attention_mask'' = Inr ratt"
    and run: "chunk (tokenized ids att) L g = (Inr result, g')"
  shows "L \<le> int (length (rid @ concat ids))"
    and "result =
       [(''input_ids'', blocks (nat L) (length (rid @ concat ids) div nat L) (rid @ concat ids)),
        (''attention_mask'', blocks (nat L) (length (rid @ concat ids) div nat L) (ratt @ concat att)),
        (''labels'', blocks (nat L) (length (rid @ concat ids) div nat L) (rid @ concat ids))]"
    and "g' = g\<lparr>remainder :=
            [(''input_ids'', drop (length (rid @ concat ids) div nat L * nat L) (rid @ concat ids)),
             (''attention_mask'', drop (length (rid @ concat ids) div nat L * nat L) (ratt @ concat att))]\<rparr>"
proof -
  show T: "L \<le> int (length (rid @ concat ids))"
  proof (rule ccontr)
    assume "\<not> L \<le> int (length (rid @ concat ids))"
    then have "int (length (rid @ concat ids)) < L" by simp
    from chunk_short[OF rid ratt this, of att] run show False by simp
  qed
  from chunk_full[OF L rid ratt T, of att] run
  show "result =
       [(''input_ids'', blocks (nat L) (length (rid @ concat ids) div nat L) (rid @ concat ids)),
        (''attention_mask'', blocks (nat L) (length (rid @ concat ids) div nat L) (ratt @ concat att)),
        (''labels'', blocks (nat L) (length (rid @ concat ids) div nat L) (rid @ concat ids))]"
    and "g' = g\<lparr>remainder :=
            [(''input_ids'', drop (length (rid @ concat ids) div nat L * nat L) (rid @ concat ids)),
             (''attention_mask'', drop (length (rid @ concat ids) div nat L * nat L) (ratt @ concat att))]\<rparr>"
    by simp_all
qed

lemma chunk_full_packing_spec:
  assumes L: "0 < L"
    and sl: "same_lengths ids att"
    and rid: "getitem (remainder g) ''input_ids'' = Inr rid"
    and ratt: "getitem (remainder g) ''attention_mask'' = Inr ratt"
    and len: "length rid = length ratt"
    and T: "L \<le> int (length (rid @ concat ids))"
  shows "chunk (tokenized ids att) L g =
       (Inr [(''input_ids'', fst (packing_spec_step (nat L) rid ids)),
             (''attention_mask'', fst (packing_spec_step (nat L) ratt att)),
             (''labels'', fst (packing_spec_step (nat L) rid ids))],
        g\<lparr>remainder :=
            [(''input_ids'', snd (packing_spec_step (nat L) rid ids)),
             (''attention_mask'', snd (packing_spec_step (nat L) ratt att))]\<rparr>)"
proof -
  have l: "0 < nat L" using L by simp
  have su: "length (ratt @ concat att) = length (rid @ concat ids)"
    using len same_lengths_concat[OF sl] by simp
  have ps: "packing_spec_step (nat L) rid ids =
      (blocks (nat L) (length (rid @ concat ids) div nat L) (rid @ concat ids),
       drop (length (rid @ concat ids) div nat L * nat L) (rid @ concat ids))"
    unfolding packing_spec_step_def by (rule packing_spec_split_blocks[OF l])
  have pu: "packing_spec_step (nat L) ratt att =
      (blocks (nat L) (length (rid @ concat ids) div nat L) (ratt @ concat att),
       drop (length (rid @ concat ids) div nat L * nat L) (ratt @ concat att))"
    unfolding packing_spec_step_def su[symmetric] by (rule packing_spec_split_blocks[OF l])
  show ?thesis
    unfolding ps pu fst_conv snd_conv by (rule chunk_full[OF L rid ratt T])
qed

lemma map_batched_Cons_Inr:
  assumes "map_batched f (b # bs) g = (Inr results, g')"
  obtains r g1 rs where "f b g = (Inr r, g1)" and "map_batched f bs g1 = (Inr rs, g')"
    and "results = r # rs"
  using assms by (auto split: prod.splits sum.splits)

lemma column_Cons:
  "column k (r # rs) = (case map_of r k of None \<Rightarrow> [] | Some v \<Rightarrow> v) @ column k rs"
  by (simp add: column_def)

lemma column_Nil: "column k [] = []"
  by (simp add: column_def)


lemma map_batched_chunk_step:
  assumes L: "0 < L"
    and sl: "same_lengths ids att"
    and rid: "getitem (remainder g) ''input_ids'' = Inr rid"
    and ratt: "getitem (remainder g) ''attention_mask'' = Inr ratt"
    and len: "length rid = length ratt"
    and run: "map_batched (\<lambda>s. chunk s L) (tokenized ids att # batches) g = (Inr results, g')"
    and s: "s = rid @ concat ids" and u: "u = ratt @ concat att"
    and l: "l = nat L" and n: "n = length s div l"
  shows "\<exists>rs g1.
           results = [(''input_ids'', blocks l n s), (''attention_mask'', blocks l n u),
                      (''labels'', blocks l n s)] # rs
         \<and> map_batched (\<lambda>s. chunk s L) batches g1 = (Inr rs, g')
         \<and> getitem (remainder g1) ''input_ids'' = Inr (drop (n * l) s)
         \<and> getitem (remainder g1) ''attention_mask'' = Inr (drop (n * l) u)"
    and "length s = length u"
proof -
  show "length s = length u"
    using len same_lengths_concat[OF sl] by (simp add: s u)
  from run obtain r g1 rs where c: "chunk (tokenized ids att) L g = (Inr r, g1)"
    and m: "map_batched (\<lambda>s. chunk s L) batches g1 = (Inr rs, g')" and res: "results = r # rs"
    by (rule map_batched_Cons_Inr)
  from chunk_tokenized_Inr(2,3)[OF L rid ratt c]
  have r: "r = [(''input_ids'', blocks l n s), (''attention_mask'', blocks l n u),
                (''labels'', blocks l n s)]"
    and g1: "g1 = g\<lparr>remainder := [(''input_ids'', drop (n * l) s),
                                     (''attention_mask'', drop (n * l) u)]\<rparr>"
    unfolding s u l n by simp_all
  show "\<exists>rs g1.
           results = [(''input_ids'', blocks l n s), (''attention_mask'', blocks l n u),
                      (''labels'', blocks l n s)] # rs
         \<and> map_batched (\<lambda>s. chunk s L) batches g1 = (Inr rs, g')
         \<and> getitem (remainder g1) ''input_ids'' = Inr (drop (n * l) s)
         \<and> getitem (remainder g1) ''attention_mask'' = Inr (drop (n * l) u)"
  proof (intro exI[of _ rs] exI[of _ g1] conjI)
    show "results = [(''input_ids'', blocks l n s), (''attention_mask'', blocks l n u),
                     (''labels'', blocks l n s)] # rs"
      by (simp add: res r)
    show "map_batched (\<lambda>s. chunk s L) batches g1 = (Inr rs, g')"
      by (rule m)
    show "getitem (remainder g1) ''input_ids'' = Inr (drop (n * l) s)"
      by (simp add: g1 getitem_tokenized_remainder)
    show "getitem (remainder g1) ''attention_mask'' = Inr (drop (n * l) u)"
      by (simp add: g1 getitem_tokenized_remainder)
  qed
qed

lemma map_batched_chunk_block_lengths:
  assumes L: "0 < L"
  shows "list_all (\<lambda>(ids, att). same_lengths ids att) bs
    \<Longrightarrow> getitem (remainder g) ''input_ids'' = Inr rid
    \<Longrightarrow> getitem (remainder g) ''attention_mask'' = Inr ratt
    \<Longrightarrow> length rid = length ratt
    \<Longrightarrow> map_batched (\<lambda>s. chunk s L) (map (\<lambda>(ids, att). tokenized ids att) bs) g = (Inr results, g')
    \<Longrightarrow> (\<forall>b \<in> set (column ''input_ids'' results). int (length b) = L)
      \<and> (\<forall>b \<in> set (column ''attention_mask'' results). int (length b) = L)
      \<and> (\<forall>b \<in> set (column ''labels'' results). int (length b) = L)"
proof (induction bs arbitrary: g rid ratt results)
  case Nil
  then show ?case by (simp add: column_Nil)
next
  case (Cons b bs)
  obtain ids att where b: "b = (ids, att)" by (cases b)
  define s where "s = rid @ concat ids"
  define u where "u = ratt @ concat att"
  define l where "l = nat L"
  define n where "n = length s div l"
  from Cons.prems(1) have sl: "same_lengths ids att"
    and rest: "list_all (\<lambda>(ids, att). same_lengths ids att) bs"
    by (simp_all add: b)
  from Cons.prems(5) have run: "map_batched (\<lambda>s. chunk s L)
      (tokenized ids att # map (\<lambda>(ids, att). tokenized ids att) bs) g = (Inr results, g')"
    by (simp add: b)
  note step = map_batched_chunk_step[OF L sl Cons.prems(2,3,4) run s_def u_def l_def n_def]
  from step(1) obtain rs g1 where
    res: "results = [(''input_ids'', blocks l n s), (''attention_mask'', blocks l n u),
                     (''labels'', blocks l n s)] # rs"
    and m: "map_batched (\<lambda>s. chunk s L) (map (\<lambda>(ids, att). tokenized ids att) bs) g1 = (Inr rs, g')"
    and r1: "getitem (remainder g1) ''input_ids'' = Inr (drop (n * l) s)"
    and r2: "getitem (remainder g1) ''attention_mask'' = Inr (drop (n * l) u)"
    by blast
  have len': "length (drop (n * l) s) = length (drop (n * l) u)"
    using step(2) by simp
  note IH = Cons.IH[OF rest r1 r2 len' m]
  have ns: "n * l \<le> length s" by (simp add: n_def)
  then have nu: "n * l \<le> length u" using step(2) by simp
  have il: "int l = L" using L by (simp add: l_def)
  have bs: "\<forall>b \<in> set (blocks l n s). int (length b) = L"
    using block_length[OF ns] il by auto
  have bu: "\<forall>b \<in> set (blocks l n u). int (length b) = L"
    using block_length[OF nu] il by auto
  show ?case
    unfolding res column_Cons using IH bs bu by auto
qed

lemma map_batched_chunk_tokens:
  assumes L: "0 < L"
  shows "list_all (\<lambda>(ids, att). same_lengths ids att) bs
    \<Longrightarrow> getitem (remainder g) ''input_ids'' = Inr rid
    \<Longrightarrow> getitem (remainder g) ''attention_mask'' = Inr ratt
    \<Longrightarrow> length rid = length ratt
    \<Longrightarrow> map_batched (\<lambda>s. chunk s L) (map (\<lambda>(ids, att). tokenized ids att) bs) g = (Inr results, g')
    \<Longrightarrow> \<exists>rid' ratt'.
          getitem (remainder g') ''input_ids'' = Inr rid'
        \<and> getitem (remainder g') ''attention_mask'' = Inr ratt'
        \<and> concat (column ''input_ids'' results) @ rid' = rid @ concat (concat (map fst bs))
        \<and> concat (column ''attention_mask'' results) @ ratt' = ratt @ concat (concat (map snd bs))"
proof (induction bs arbitrary: g rid ratt results)
  case Nil
  then show ?case by (simp add: column_Nil)
next
  case (Cons b bs)
  obtain ids att where b: "b = (ids, att)" by (cases b)
  define s where "s = rid @ concat ids"
  define u where "u = ratt @ concat att"
  define l where "l = nat L"
  define n where "n = length s div l"
  from Cons.prems(1) have sl: "same_lengths ids att"
    and rest: "list_all (\<lambda>(ids, att). same_lengths ids att) bs"
    by (simp_all add: b)
  from Cons.prems(5) have run: "map_batched (\<lambda>s. chunk s L)
      (tokenized ids att # map (\<lambda>(ids, att). tokenized ids att) bs) g = (Inr results, g')"
    by (simp add: b)
  note step = map_batched_chunk_step[OF L sl Cons.prems(2,3,4) run s_def u_def l_def n_def]
  from step(1) obtain rs g1 where
    res: "results = [(''input_ids'', blocks l n s), (''attention_mask'', blocks l n u),
                     (''labels'', blocks l n s)] # rs"
    and m: "map_batched (\<lambda>s. chunk s L) (map (\<lambda>(ids, att). tokenized ids att) bs) g1 = (Inr rs, g')"
    and r1: "getitem (remainder g1) ''input_ids'' = Inr (drop (n * l) s)"
    and r2: "getitem (remainder g1) ''attention_mask'' = Inr (drop (n * l) u)"
    by blast
  have len': "length (drop (n * l) s) = length (drop (n * l) u)"
    using step(2) by simp
  from Cons.IH[OF rest r1 r2 len' m] obtain rid' ratt' where
    k1: "getitem (remainder g') ''input_ids'' = Inr rid'"
    and k2: "getitem (remainder g') ''attention_mask'' = Inr ratt'"
    and t1: "concat (column ''input_ids'' rs) @ rid' = drop (n * l) s @ concat (concat (map fst bs))"
    and t2: "concat (column ''attention_mask'' rs) @ ratt' = drop (n * l) u @ concat (concat (map snd bs))"
    by blast
  have "concat (column ''input_ids'' results) @ rid'
      = take (n * l) s @ concat (column ''input_ids'' rs) @ rid'"
    by (simp add: res column_Cons concat_blocks)
  also have "\<dots> = s @ concat (concat (map fst bs))"
    by (simp only: t1 append_assoc[symmetric] append_take_drop_id)
  finally have c1: "concat (column ''input_ids'' results) @ rid'
      = rid @ concat (concat (map fst (b # bs)))"
    by (simp add: s_def b)
  have "concat (column ''attention_mask'' results) @ ratt'
      = take (n * l) u @ concat (column ''attention_mask'' rs) @ ratt'"
    by (simp add: res column_Cons concat_blocks)
  also have "\<dots> = u @ concat (concat (map snd bs))"
    by (simp only: t2 append_assoc[symmetric] append_take_drop_id)
  finally have c2: "concat (column ''attention_mask'' results) @ ratt'
      = ratt @ concat (concat (map snd (b # bs)))"
    by (simp add: u_def b)
  from k1 k2 c1 c2 show ?case by blast
qed

lemma map_batched_chunk_packing_fold:
  assumes L: "0 < L"
  shows "list_all (\<lambda>(ids, att). same_lengths ids att) bs
    \<Longrightarrow> getitem (remainder g) ''input_ids'' = Inr rid
    \<Longrightarrow> getitem (remainder g) ''attention_mask'' = Inr ratt
    \<Longrightarrow> length rid = length ratt
    \<Longrightarrow> map_batched (\<lambda>s. chunk s L) (map (\<lambda>(ids, att). tokenized ids att) bs) g = (Inr results, g')
    \<Longrightarrow> \<exists>rid' ratt'.
          getitem (remainder g') ''input_ids'' = Inr rid'
        \<and> getitem (remainder g') ''attention_mask'' = Inr ratt'
        \<and> foldl (\<lambda>(out, r) batch. case packing_spec_step (nat L) r batch of (bs, r') \<Rightarrow> (out @ bs, r'))
              (o1, rid) (map fst bs) = (o1 @ column ''input_ids'' results, rid')
        \<and> foldl (\<lambda>(out, r) batch. case packing_spec_step (nat L) r batch of (bs, r') \<Rightarrow> (out @ bs, r'))
              (o2, ratt) (map snd bs) = (o2 @ column ''attention_mask'' results, ratt')"
proof (induction bs arbitrary: g rid ratt results o1 o2)
  case Nil
  then show ?case by (simp add: column_Nil)
next
  case (Cons b bs)
  obtain ids att where b: "b = (ids, att)" by (cases b)
  define s where "s = rid @ concat ids"
  define u where "u = ratt @ concat att"
  define l where "l = nat L"
  define n where "n = length s div l"
  have l0: "0 < l" using L by (simp add: l_def)
  from Cons.prems(1) have sl: "same_lengths ids att"
    and rest: "list_all (\<lambda>(ids, att). same_lengths ids att) bs"
    by (simp_all add: b)
  from Cons.prems(5) have run: "map_batched (\<lambda>s. chunk s L)
      (tokenized ids att # map (\<lambda>(ids, att). tokenized ids att) bs) g = (Inr results, g')"
    by (simp add: b)
  note step = map_batched_chunk_step[OF L sl Cons.prems(2,3,4) run s_def u_def l_def n_def]
  from step(1) obtain rs g1 where
    res: "results = [(''input_ids'', blocks l n s), (''attention_mask'', blocks l n u),
                     (''labels'', blocks l n s)] # rs"
    and m: "map_batched (\<lambda>s. chunk s L) (map (\<lambda>(ids, att). tokenized ids att) bs) g1 = (Inr rs, g')"
    and r1: "getitem (remainder g1) ''input_ids'' = Inr (drop (n * l) s)"
    and r2: "getitem (remainder g1) ''attention_mask'' = Inr (drop (n * l) u)"
    by blast
  have len': "length (drop (n * l) s) = length (drop (n * l) u)"
    using step(2) by simp
  have nu: "n = length u div l" using step(2) by (simp add: n_def)
  have ps: "packing_spec_step l rid ids = (blocks l n s, drop (n * l) s)"
    unfolding packing_spec_step_def s_def[symmetric] n_def by (rule packing_spec_split_blocks[OF l0])
  have pu: "packing_spec_step l ratt att = (blocks l n u, drop (n * l) u)"
    unfolding packing_spec_step_def u_def[symmetric] nu by (rule packing_spec_split_blocks[OF l0])
  from Cons.IH[OF rest r1 r2 len' m, of "o1 @ blocks l n s" "o2 @ blocks l n u"]
  show ?case
    by (simp add: b ps pu l_def[symmetric] res column_Cons)
qed

lemma map_batched_chunk_packing_spec_fold:
  assumes L: "0 < L"
    and sl: "list_all (\<lambda>(ids, att). same_lengths ids att) bs"
    and init: "remainder g = remainder_init"
    and run: "map_batched (\<lambda>s. chunk s L) (map (\<lambda>(ids, att). tokenized ids att) bs) g
                = (Inr results, g')"
  shows "\<exists>rid' ratt'.
          getitem (remainder g') ''input_ids'' = Inr rid'
        \<and> getitem (remainder g') ''attention_mask'' = Inr ratt'
        \<and> packing_spec_fold (nat L) (map fst bs) = (column ''input_ids'' results, rid')
        \<and> packing_spec_fold (nat L) (map snd bs) = (column ''attention_mask'' results, ratt')"
proof -
  have r1: "getitem (remainder g) ''input_ids'' = Inr []"
    and r2: "getitem (remainder g) ''attention_mask'' = Inr []"
    by (simp_all add: init remainder_init_def getitem_def)
  from map_batched_chunk_packing_fold[OF L sl r1 r2 _ run, of "[]" "[]"]
  show ?thesis
    by (simp add: packing_spec_fold_def)
qed

section \<open>The claims\<close>

text \<open>
  In the theorems below a call of \<open>chunk\<close> is made on a batch \<open>tokenized ids att\<close> and on
  globals whose \<open>remainder\<close> holds a list \<open>rid\<close> under \<^verbatim>\<open>input_ids\<close> and a list \<open>ratt\<close>
  under \<^verbatim>\<open>attention_mask\<close>: the shape the pipeline gives them.
\<close>

text \<open>
  Claim C9. A call in which the previous remainder and the batch hold fewer than
  \<^verbatim>\<open>chunk_length\<close> tokens together fails with \<^verbatim>\<open>NameError\<close>: \<^verbatim>\<open>batch_chunk_length\<close> is assigned
  only when \<^verbatim>\<open>batch_total_length >= chunk_length\<close> and is read in every case. The call
  returns no blocks, and the globals stay as they were: the tokens of the batch are not
  carried in the remainder.
\<close>

theorem chunk_short_batch_raises_NameError:
  assumes "getitem (remainder g) ''input_ids'' = Inr rid"
    and "getitem (remainder g) ''attention_mask'' = Inr ratt"
    and "int (length rid) + int (length (concat ids)) < chunk_length"
  shows "chunk (tokenized ids att) chunk_length g = (Inl NameError, g)"
proof -
  from assms(3) have "int (length (rid @ concat ids)) < chunk_length" by simp
  then show ?thesis by (rule chunk_short[OF assms(1) assms(2)])
qed

theorem chunk_short_batch_raises_NameError_witness:
  "getitem (remainder \<lparr>remainder = remainder_init\<rparr>) ''input_ids'' = Inr []
   \<and> getitem (remainder \<lparr>remainder = remainder_init\<rparr>) ''attention_mask'' = Inr []
   \<and> int (length ([] :: int list)) + int (length (concat [[1, 2, 3 :: int]])) < 1536
   \<and> chunk (tokenized [[1, 2, 3]] [[1, 1, 1]]) 1536 \<lparr>remainder = remainder_init\<rparr>
       = (Inl NameError, \<lparr>remainder = remainder_init\<rparr>)"
proof -
  have h1: "getitem (remainder \<lparr>remainder = remainder_init\<rparr>) ''input_ids'' = Inr []"
    by (simp add: getitem_def remainder_init_def)
  have h2: "getitem (remainder \<lparr>remainder = remainder_init\<rparr>) ''attention_mask'' = Inr []"
    by (simp add: getitem_def remainder_init_def)
  have h3: "int (length ([] :: int list)) + int (length (concat [[1, 2, 3 :: int]])) < 1536"
    by simp
  show ?thesis
    by (intro conjI h1 h2 h3 chunk_short_batch_raises_NameError[OF h1 h2 h3])
qed



text \<open>
  Claim C5. In every result that \<open>chunk\<close> returns, whatever the batch, the remainder and
  \<^verbatim>\<open>chunk_length\<close>, the list under \<^verbatim>\<open>labels\<close> is the list under \<^verbatim>\<open>input_ids\<close>: as many blocks,
  and the same value at every position of every block. Nothing is shifted.
\<close>

theorem chunk_labels_copy_input_ids:
  assumes "chunk sample chunk_length g = (Inr result, g')"
  shows "\<exists>input_ids labels.
           getitem result ''input_ids'' = Inr input_ids
         \<and> getitem result ''labels'' = Inr labels
         \<and> labels = input_ids
         \<and> length labels = length input_ids
         \<and> (\<forall>j < length input_ids. \<forall>i < length (input_ids ! j).
                labels ! j ! i = input_ids ! j ! i)"
  using assms
  by (auto simp: chunk_def Let_def getitem_setitem_same getitem_setitem_other
      simp del: setitem.simps add_remainder.simps
      split: sum.splits list.splits if_splits)

theorem chunk_labels_copy_input_ids_witness:
  "chunk (tokenized [[1, 2, 3], [4, 5]] [[1, 1, 1], [1, 1]]) 2 \<lparr>remainder = remainder_init\<rparr>
     = (Inr [(''input_ids'', [[1, 2], [3, 4]]), (''attention_mask'', [[1, 1], [1, 1]]),
             (''labels'', [[1, 2], [3, 4]])],
        \<lparr>remainder = [(''input_ids'', [5]), (''attention_mask'', [1])]\<rparr>)
   \<and> (\<exists>input_ids labels.
           getitem [(''input_ids'', [[1, 2], [3, 4]]), (''attention_mask'', [[1, 1], [1, 1]]),
                    (''labels'', [[1, 2], [3, 4 :: int]])] ''input_ids'' = Inr input_ids
         \<and> getitem [(''input_ids'', [[1, 2], [3, 4]]), (''attention_mask'', [[1, 1], [1, 1]]),
                    (''labels'', [[1, 2], [3, 4]])] ''labels'' = Inr labels
         \<and> labels = input_ids
         \<and> length labels = length input_ids)"
proof -
  have run: "chunk (tokenized [[1, 2, 3], [4, 5]] [[1, 1, 1], [1, 1]]) 2 \<lparr>remainder = remainder_init\<rparr>
     = (Inr [(''input_ids'', [[1, 2], [3, 4]]), (''attention_mask'', [[1, 1], [1, 1]]),
             (''labels'', [[1, 2], [3, 4]])],
        \<lparr>remainder = [(''input_ids'', [5]), (''attention_mask'', [1])]\<rparr>)"
    by code_simp
  from chunk_labels_copy_input_ids[OF run] run show ?thesis
    by blast
qed

text \<open>
  Claim C10. The two keys stay in lockstep. When every sample of the batch has as many
  mask entries as token ids, and the remainder holds lists of one length under its two
  keys, then a result that \<open>chunk\<close> returns has the same number of blocks under
  \<^verbatim>\<open>input_ids\<close>, \<^verbatim>\<open>attention_mask\<close> and \<^verbatim>\<open>labels\<close>, blocks at the same place have the same
  length, and the remainder after the call (reassigned, or left alone by a call that
  raises) again holds lists of one length. This holds for every \<^verbatim>\<open>chunk_length\<close>.
\<close>

theorem chunk_keys_in_lockstep:
  assumes sl: "same_lengths ids att"
    and rid: "getitem (remainder g) ''input_ids'' = Inr rid"
    and ratt: "getitem (remainder g) ''attention_mask'' = Inr ratt"
    and len: "length rid = length ratt"
    and run: "chunk (tokenized ids att) chunk_length g = (out, g')"
  shows "(\<forall>result. out = Inr result \<longrightarrow>
            (\<exists>bi ba. result = [(''input_ids'', bi), (''attention_mask'', ba), (''labels'', bi)]
                \<and> length bi = length ba \<and> same_lengths bi ba))
       \<and> (\<exists>rid' ratt'. getitem (remainder g') ''input_ids'' = Inr rid'
                \<and> getitem (remainder g') ''attention_mask'' = Inr ratt'
                \<and> length rid' = length ratt')"
proof -
  define s where "s = rid @ concat ids"
  define u where "u = ratt @ concat att"
  have su: "length s = length u"
    using len same_lengths_concat[OF sl] by (simp add: s_def u_def)
  consider (neg) "chunk_length < 0" | (zero) "chunk_length = 0"
    | (full) "0 < chunk_length" "chunk_length \<le> int (length s)"
    | (short) "0 < chunk_length" "int (length s) < chunk_length"
    by linarith
  then show ?thesis
  proof cases
    case neg
    define b where "b = nat (int (length s) div chunk_length * chunk_length)"
    have "chunk (tokenized ids att) chunk_length g =
        (Inr [(''input_ids'', []), (''attention_mask'', []), (''labels'', [])],
         g\<lparr>remainder := [(''input_ids'', drop b s), (''attention_mask'', drop b u)]\<rparr>)"
      unfolding s_def u_def b_def by (rule chunk_negative[OF neg rid ratt])
    with run have out: "out = Inr [(''input_ids'', []), (''attention_mask'', []), (''labels'', [])]"
      and g': "g' = g\<lparr>remainder := [(''input_ids'', drop b s), (''attention_mask'', drop b u)]\<rparr>"
      by simp_all
    have "length (drop b s) = length (drop b u)" using su by simp
    then show ?thesis
      unfolding out g' by (simp add: getitem_tokenized_remainder same_lengths_def)
  next
    case zero
    from run chunk_zero[OF rid ratt, of ids att] zero have "out = Inl ZeroDivisionError" "g' = g"
      by simp_all
    with rid ratt len show ?thesis by auto
  next
    case full
    define l where "l = nat chunk_length"
    define n where "n = length s div l"
    have "chunk (tokenized ids att) chunk_length g =
        (Inr [(''input_ids'', blocks l n s), (''attention_mask'', blocks l n u),
              (''labels'', blocks l n s)],
         g\<lparr>remainder := [(''input_ids'', drop (n * l) s), (''attention_mask'', drop (n * l) u)]\<rparr>)"
      unfolding s_def u_def l_def n_def
      by (rule chunk_full[OF full(1) rid ratt full(2)[unfolded s_def]])
    with run have out: "out = Inr [(''input_ids'', blocks l n s), (''attention_mask'', blocks l n u),
              (''labels'', blocks l n s)]"
      and g': "g' = g\<lparr>remainder := [(''input_ids'', drop (n * l) s), (''attention_mask'', drop (n * l) u)]\<rparr>"
      by simp_all
    have "length (drop (n * l) s) = length (drop (n * l) u)" using su by simp
    then show ?thesis
      unfolding out g'
      by (simp add: getitem_tokenized_remainder length_blocks blocks_same_lengths[OF su])
  next
    case short
    from run chunk_short[OF rid ratt short(2)[unfolded s_def], of att]
    have "out = Inl NameError" "g' = g"
      by simp_all
    with rid ratt len show ?thesis by auto
  qed
qed

theorem chunk_keys_in_lockstep_witness:
  "same_lengths [[1, 2, 3], [4, 5 :: int]] [[1, 1, 1], [1, 1 :: int]]
   \<and> getitem (remainder \<lparr>remainder = remainder_init\<rparr>) ''input_ids'' = Inr []
   \<and> getitem (remainder \<lparr>remainder = remainder_init\<rparr>) ''attention_mask'' = Inr []
   \<and> length ([] :: int list) = length ([] :: int list)
   \<and> chunk (tokenized [[1, 2, 3], [4, 5]] [[1, 1, 1], [1, 1]]) 2 \<lparr>remainder = remainder_init\<rparr>
       = (Inr [(''input_ids'', [[1, 2], [3, 4]]), (''attention_mask'', [[1, 1], [1, 1]]),
               (''labels'', [[1, 2], [3, 4]])],
          \<lparr>remainder = [(''input_ids'', [5]), (''attention_mask'', [1])]\<rparr>)
   \<and> (\<exists>bi ba. [(''input_ids'', [[1, 2], [3, 4]]), (''attention_mask'', [[1, 1], [1, 1]]),
                 (''labels'', [[1, 2], [3, 4 :: int]])]
                = [(''input_ids'', bi), (''attention_mask'', ba), (''labels'', bi)]
              \<and> length bi = length ba \<and> same_lengths bi ba)
   \<and> (\<exists>rid' ratt'.
          getitem (remainder \<lparr>remainder = [(''input_ids'', [5]), (''attention_mask'', [1])]\<rparr>)
            ''input_ids'' = Inr rid'
        \<and> getitem (remainder \<lparr>remainder = [(''input_ids'', [5]), (''attention_mask'', [1])]\<rparr>)
            ''attention_mask'' = Inr ratt'
        \<and> length rid' = length ratt')"
proof -
  have h1: "same_lengths [[1, 2, 3], [4, 5 :: int]] [[1, 1, 1], [1, 1 :: int]]"
    by (simp add: same_lengths_def)
  have h2: "getitem (remainder \<lparr>remainder = remainder_init\<rparr>) ''input_ids'' = Inr []"
    by (simp add: getitem_def remainder_init_def)
  have h3: "getitem (remainder \<lparr>remainder = remainder_init\<rparr>) ''attention_mask'' = Inr []"
    by (simp add: getitem_def remainder_init_def)
  have h4: "length ([] :: int list) = length ([] :: int list)"
    by simp
  have h5: "chunk (tokenized [[1, 2, 3], [4, 5]] [[1, 1, 1], [1, 1]]) 2 \<lparr>remainder = remainder_init\<rparr>
       = (Inr [(''input_ids'', [[1, 2], [3, 4]]), (''attention_mask'', [[1, 1], [1, 1]]),
               (''labels'', [[1, 2], [3, 4]])],
          \<lparr>remainder = [(''input_ids'', [5]), (''attention_mask'', [1])]\<rparr>)"
    by code_simp
  from chunk_keys_in_lockstep[OF h1 h2 h3 h4 h5] h1 h2 h3 h4 h5 show ?thesis
    by blast
qed

text \<open>
  Claim C3. For a positive \<^verbatim>\<open>chunk_length\<close> and a tokenized batch (one mask entry per token,
  in the samples and in the remainder), every block that \<open>chunk\<close> returns, under
  \<^verbatim>\<open>input_ids\<close>, \<^verbatim>\<open>attention_mask\<close> and \<^verbatim>\<open>labels\<close> alike, has exactly \<^verbatim>\<open>chunk_length\<close>
  elements, and after every call, one that raises included, the lists of the remainder are
  shorter than \<^verbatim>\<open>chunk_length\<close>.
\<close>

theorem chunk_blocks_have_chunk_length:
  assumes L: "0 < chunk_length"
    and sl: "same_lengths ids att"
    and rid: "getitem (remainder g) ''input_ids'' = Inr rid"
    and ratt: "getitem (remainder g) ''attention_mask'' = Inr ratt"
    and len: "length rid = length ratt"
    and run: "chunk (tokenized ids att) chunk_length g = (out, g')"
  shows "(\<forall>result. out = Inr result \<longrightarrow>
            (\<forall>k \<in> {''input_ids'', ''attention_mask'', ''labels''}.
               \<exists>bs. getitem result k = Inr bs \<and> (\<forall>b \<in> set bs. int (length b) = chunk_length)))
       \<and> (\<exists>rid' ratt'. getitem (remainder g') ''input_ids'' = Inr rid'
                \<and> getitem (remainder g') ''attention_mask'' = Inr ratt'
                \<and> int (length rid') < chunk_length \<and> int (length ratt') < chunk_length)"
proof -
  define s where "s = rid @ concat ids"
  define u where "u = ratt @ concat att"
  define l where "l = nat chunk_length"
  define n where "n = length s div l"
  have l: "0 < l" "int l = chunk_length" using L by (simp_all add: l_def)
  have su: "length s = length u"
    using len same_lengths_concat[OF sl] by (simp add: s_def u_def)
  show ?thesis
  proof (cases "chunk_length \<le> int (length s)")
    case True
    have ns: "n * l \<le> length s" by (simp add: n_def)
    then have nu: "n * l \<le> length u" using su by simp
    have bs: "\<forall>b \<in> set (blocks l n s). int (length b) = chunk_length"
      using block_length[OF ns] l(2) by auto
    have bu: "\<forall>b \<in> set (blocks l n u). int (length b) = chunk_length"
      using block_length[OF nu] l(2) by auto
    have "length (drop (n * l) s) < l"
      unfolding n_def by (rule drop_blocks_length[OF l(1)])
    moreover have "length (drop (n * l) u) = length (drop (n * l) s)" using su by simp
    ultimately have rs: "int (length (drop (n * l) s)) < chunk_length"
      and ru: "int (length (drop (n * l) u)) < chunk_length"
      using l(2) by linarith+
    have "chunk (tokenized ids att) chunk_length g =
        (Inr [(''input_ids'', blocks l n s), (''attention_mask'', blocks l n u),
              (''labels'', blocks l n s)],
         g\<lparr>remainder := [(''input_ids'', drop (n * l) s), (''attention_mask'', drop (n * l) u)]\<rparr>)"
      unfolding s_def u_def l_def n_def
      by (rule chunk_full[OF L rid ratt True[unfolded s_def]])
    with run have out: "out = Inr [(''input_ids'', blocks l n s), (''attention_mask'', blocks l n u),
              (''labels'', blocks l n s)]"
      and g': "g' = g\<lparr>remainder := [(''input_ids'', drop (n * l) s), (''attention_mask'', drop (n * l) u)]\<rparr>"
      by simp_all
    show ?thesis
      unfolding out g' using bs bu rs ru
      by (simp add: getitem_tokenized_remainder getitem_result del: length_drop)
  next
    case False
    then have short: "int (length (rid @ concat ids)) < chunk_length" by (simp add: s_def)
    then have lens: "int (length rid) < chunk_length" "int (length ratt) < chunk_length"
      using len by simp_all
    from run chunk_short[OF rid ratt short, of att]
    have "out = Inl NameError" "g' = g"
      by simp_all
    with rid ratt lens show ?thesis by auto
  qed
qed

theorem chunk_blocks_have_chunk_length_witness:
  "(0 :: int) < 2
   \<and> same_lengths [[1, 2, 3], [4, 5 :: int]] [[1, 1, 1], [1, 1 :: int]]
   \<and> getitem (remainder \<lparr>remainder = remainder_init\<rparr>) ''input_ids'' = Inr []
   \<and> getitem (remainder \<lparr>remainder = remainder_init\<rparr>) ''attention_mask'' = Inr []
   \<and> length ([] :: int list) = length ([] :: int list)
   \<and> chunk (tokenized [[1, 2, 3], [4, 5]] [[1, 1, 1], [1, 1]]) 2 \<lparr>remainder = remainder_init\<rparr>
       = (Inr [(''input_ids'', [[1, 2], [3, 4]]), (''attention_mask'', [[1, 1], [1, 1]]),
               (''labels'', [[1, 2], [3, 4]])],
          \<lparr>remainder = [(''input_ids'', [5]), (''attention_mask'', [1])]\<rparr>)
   \<and> (\<exists>bs. getitem [(''input_ids'', [[1, 2], [3, 4]]), (''attention_mask'', [[1, 1], [1, 1]]),
                      (''labels'', [[1, 2], [3, 4 :: int]])] ''input_ids'' = Inr bs
            \<and> list_all (\<lambda>b. int (length b) = 2) bs)
   \<and> (\<exists>bs. getitem [(''input_ids'', [[1, 2], [3, 4]]), (''attention_mask'', [[1, 1], [1, 1]]),
                      (''labels'', [[1, 2], [3, 4 :: int]])] ''attention_mask'' = Inr bs
            \<and> list_all (\<lambda>b. int (length b) = 2) bs)
   \<and> (\<exists>bs. getitem [(''input_ids'', [[1, 2], [3, 4]]), (''attention_mask'', [[1, 1], [1, 1]]),
                      (''labels'', [[1, 2], [3, 4 :: int]])] ''labels'' = Inr bs
            \<and> list_all (\<lambda>b. int (length b) = 2) bs)
   \<and> (\<exists>rid' ratt'.
          getitem (remainder \<lparr>remainder = [(''input_ids'', [5]), (''attention_mask'', [1])]\<rparr>)
            ''input_ids'' = Inr rid'
        \<and> getitem (remainder \<lparr>remainder = [(''input_ids'', [5]), (''attention_mask'', [1])]\<rparr>)
            ''attention_mask'' = Inr ratt'
        \<and> int (length rid') < 2 \<and> int (length ratt') < 2)"
proof -
  have h0: "(0 :: int) < 2"
    by simp
  have h1: "same_lengths [[1, 2, 3], [4, 5 :: int]] [[1, 1, 1], [1, 1 :: int]]"
    by (simp add: same_lengths_def)
  have h2: "getitem (remainder \<lparr>remainder = remainder_init\<rparr>) ''input_ids'' = Inr []"
    by (simp add: getitem_def remainder_init_def)
  have h3: "getitem (remainder \<lparr>remainder = remainder_init\<rparr>) ''attention_mask'' = Inr []"
    by (simp add: getitem_def remainder_init_def)
  have h4: "length ([] :: int list) = length ([] :: int list)"
    by simp
  have h5: "chunk (tokenized [[1, 2, 3], [4, 5]] [[1, 1, 1], [1, 1]]) 2 \<lparr>remainder = remainder_init\<rparr>
       = (Inr [(''input_ids'', [[1, 2], [3, 4]]), (''attention_mask'', [[1, 1], [1, 1]]),
               (''labels'', [[1, 2], [3, 4]])],
          \<lparr>remainder = [(''input_ids'', [5]), (''attention_mask'', [1])]\<rparr>)"
    by code_simp
  from chunk_blocks_have_chunk_length[OF h0 h1 h2 h3 h4 h5] h0 h1 h2 h3 h4 h5 show ?thesis
    unfolding list_all_iff by blast
qed

text \<open>
  Claim C8. The pipeline maps \<^verbatim>\<open>partial(chunk, chunk_length=1536)\<close>: every call of the map
  is a call of \<open>chunk\<close> with \<^verbatim>\<open>chunk_length\<close> 1536, not the default 2048 of a call that
  gives no \<^verbatim>\<open>chunk_length\<close>. So in the dataset that the map builds from tokenized batches,
  starting from the initial remainder, every block of every column has 1536 elements.
\<close>

theorem lm_dataset_blocks_have_1536_tokens:
  assumes "list_all (\<lambda>(ids, att). same_lengths ids att) bs"
    and "remainder g = remainder_init"
    and "lm_dataset (map (\<lambda>(ids, att). tokenized ids att) bs) g = (Inr results, g')"
  shows "lm_chunk sample g = chunk sample 1536 g
       \<and> chunk_kw sample None g = chunk sample 2048 g
       \<and> (\<forall>b \<in> set (column ''input_ids'' results). length b = 1536)
       \<and> (\<forall>b \<in> set (column ''attention_mask'' results). length b = 1536)
       \<and> (\<forall>b \<in> set (column ''labels'' results). length b = 1536)"
proof -
  have r1: "getitem (remainder g) ''input_ids'' = Inr []"
    and r2: "getitem (remainder g) ''attention_mask'' = Inr []"
    by (simp_all add: assms(2) remainder_init_def getitem_def)
  have "lm_chunk = (\<lambda>s :: int list list pydict. chunk s 1536 :: 'a notebook_globals_scheme \<Rightarrow> _)"
    by (rule ext) (simp add: lm_chunk_def chunk_kw_def)
  with assms(3)
  have run: "map_batched (\<lambda>s. chunk s 1536) (map (\<lambda>(ids, att). tokenized ids att) bs) g
      = (Inr results, g')"
    by (simp add: lm_dataset_def)
  have "(\<forall>b \<in> set (column ''input_ids'' results). int (length b) = 1536)
      \<and> (\<forall>b \<in> set (column ''attention_mask'' results). int (length b) = 1536)
      \<and> (\<forall>b \<in> set (column ''labels'' results). int (length b) = 1536)"
    by (rule map_batched_chunk_block_lengths[OF _ assms(1) r1 r2 _ run]) simp_all
  then show ?thesis
    by (simp add: lm_chunk_def chunk_kw_def)
qed

theorem lm_dataset_blocks_have_1536_tokens_witness:
  "list_all (\<lambda>(ids, att). same_lengths ids att) [([replicate 1537 (7 :: int)], [replicate 1537 (1 :: int)])]
   \<and> remainder \<lparr>remainder = remainder_init\<rparr> = remainder_init
   \<and> lm_dataset (map (\<lambda>(ids, att). tokenized ids att) [([replicate 1537 7], [replicate 1537 1])])
         \<lparr>remainder = remainder_init\<rparr>
       = (Inr [[(''input_ids'', [replicate 1536 7]), (''attention_mask'', [replicate 1536 1]),
                (''labels'', [replicate 1536 7])]],
          \<lparr>remainder = [(''input_ids'', [7]), (''attention_mask'', [1])]\<rparr>)
   \<and> lm_chunk (tokenized [[1, 2, 3]] [[1, 1, 1]]) \<lparr>remainder = remainder_init\<rparr>
       = chunk (tokenized [[1, 2, 3]] [[1, 1, 1]]) 1536 \<lparr>remainder = remainder_init\<rparr>
   \<and> chunk_kw (tokenized [[1, 2, 3]] [[1, 1, 1]]) None \<lparr>remainder = remainder_init\<rparr>
       = chunk (tokenized [[1, 2, 3]] [[1, 1, 1]]) 2048 \<lparr>remainder = remainder_init\<rparr>
   \<and> list_all (\<lambda>b. length b = 1536)
         (column ''input_ids'' [[(''input_ids'', [replicate 1536 (7 :: int)]),
            (''attention_mask'', [replicate 1536 1]), (''labels'', [replicate 1536 7])]])
   \<and> list_all (\<lambda>b. length b = 1536)
         (column ''attention_mask'' [[(''input_ids'', [replicate 1536 (7 :: int)]),
            (''attention_mask'', [replicate 1536 1]), (''labels'', [replicate 1536 7])]])
   \<and> list_all (\<lambda>b. length b = 1536)
         (column ''labels'' [[(''input_ids'', [replicate 1536 (7 :: int)]),
            (''attention_mask'', [replicate 1536 1]), (''labels'', [replicate 1536 7])]])"
proof -
  have h1: "list_all (\<lambda>(ids, att). same_lengths ids att)
      [([replicate 1537 (7 :: int)], [replicate 1537 (1 :: int)])]"
    by (simp add: same_lengths_def)
  have h2: "remainder \<lparr>remainder = remainder_init\<rparr> = remainder_init"
    by simp
  have r1: "getitem (remainder \<lparr>remainder = remainder_init\<rparr>) ''input_ids'' = Inr []"
    and r2: "getitem (remainder \<lparr>remainder = remainder_init\<rparr>) ''attention_mask'' = Inr []"
    by (simp_all add: remainder_init_def getitem_def)
  have d: "(1537 :: nat) div 1536 = 1"
    by simp
  have c: "chunk (tokenized [replicate 1537 7] [replicate 1537 1]) 1536 \<lparr>remainder = remainder_init\<rparr>
       = (Inr [(''input_ids'', [replicate 1536 7]), (''attention_mask'', [replicate 1536 1]),
               (''labels'', [replicate 1536 7])],
          \<lparr>remainder = [(''input_ids'', [7]), (''attention_mask'', [1])]\<rparr>)"
    by (simp add: chunk_full[OF _ r1 r2] d blocks_def)
  have h3: "lm_dataset (map (\<lambda>(ids, att). tokenized ids att) [([replicate 1537 7], [replicate 1537 1])])
         \<lparr>remainder = remainder_init\<rparr>
       = (Inr [[(''input_ids'', [replicate 1536 7]), (''attention_mask'', [replicate 1536 1]),
                (''labels'', [replicate 1536 7])]],
          \<lparr>remainder = [(''input_ids'', [7]), (''attention_mask'', [1])]\<rparr>)"
    by (simp add: lm_dataset_def lm_chunk_def chunk_kw_def c)
  from lm_dataset_blocks_have_1536_tokens[OF h1 h2 h3, of "tokenized [[1, 2, 3]] [[1, 1, 1]]"]
    h1 h2 h3
  show ?thesis
    unfolding list_all_iff by blast
qed

text \<open>
  Claim C1. The claim describes every call: the lists of the batch are concatenated behind
  the remainder, the full blocks are returned, and the tokens behind the last full block
  are the new remainder (\<open>packing_spec_step\<close>). Lemma \<open>chunk_full_packing_spec\<close> shows that
  a call with at least \<^verbatim>\<open>chunk_length\<close> tokens does this. On a batch of three tokens and
  the empty remainder the claim gives no block and the remainder \<open>[1, 2, 3]\<close>; the code
  raises \<^verbatim>\<open>NameError\<close> and returns nothing.
\<close>

theorem chunk_short_batch_returns_nothing:
  "chunk (tokenized [[1, 2, 3]] [[1, 1, 1]]) 2048 \<lparr>remainder = remainder_init\<rparr>
     = (Inl NameError, \<lparr>remainder = remainder_init\<rparr>)
   \<and> packing_spec_step 2048 [] [[1, 2, 3 :: int]] = ([], [1, 2, 3])"
  by code_simp

text \<open>
  Claim C2. The claim says that no token is lost over a sequence of batches: the emitted
  blocks followed by the last remainder are the tokens of all batches (lemma
  \<open>map_batched_chunk_tokens\<close> shows it for a map that completes). With \<^verbatim>\<open>chunk_length\<close> 4,
  a first batch of five tokens and a second batch of one token, the second call raises
  \<^verbatim>\<open>NameError\<close>: the map ends with the exception, and the remainder it leaves, \<open>[5]\<close>,
  does not hold the token 6. In the pipeline itself a dataset of one short batch ends the
  same way.
\<close>

theorem map_batched_short_batch_loses_tokens:
  "map_batched (\<lambda>s. chunk s 4)
      [tokenized [[1, 2, 3, 4, 5]] [[1, 1, 1, 1, 1]], tokenized [[6]] [[1]]]
      \<lparr>remainder = remainder_init\<rparr>
     = (Inl NameError, \<lparr>remainder = [(''input_ids'', [5]), (''attention_mask'', [1])]\<rparr>)
   \<and> lm_dataset [tokenized [[1, 2, 3]] [[1, 1, 1]]] \<lparr>remainder = remainder_init\<rparr>
     = (Inl NameError, \<lparr>remainder = remainder_init\<rparr>)"
  by code_simp

text \<open>
  Claim C4. The claim says that after every call the remainder is the end of the
  concatenated sequence, from the last full block on. With the remainder \<open>[7]\<close>, a batch
  of the one token 8 and \<^verbatim>\<open>chunk_length\<close> 4 there is no full block, and the claim gives the
  new remainder \<open>[7, 8]\<close>; the code raises \<^verbatim>\<open>NameError\<close> before it reassigns
  \<^verbatim>\<open>remainder\<close>, which stays \<open>[7]\<close>.
\<close>

theorem chunk_short_batch_keeps_old_remainder:
  "chunk (tokenized [[8]] [[1]]) 4 \<lparr>remainder = [(''input_ids'', [7]), (''attention_mask'', [1])]\<rparr>
     = (Inl NameError, \<lparr>remainder = [(''input_ids'', [7]), (''attention_mask'', [1])]\<rparr>)
   \<and> snd (packing_spec_step 4 [7] [[8 :: int]]) = [7, 8]"
  by code_simp

text \<open>
  Claim C6. The claim says that the map of \<open>chunk\<close> over the batches, with its global
  remainder, is the left fold \<open>packing_spec_fold\<close> of the specification (lemma
  \<open>map_batched_chunk_packing_spec_fold\<close> shows that a map that completes emits the blocks of the
  fold and leaves its remainder). On the single batch \<open>[[1, 2, 3]]\<close> with \<^verbatim>\<open>chunk_length\<close> 4
  the fold emits no block and keeps \<open>[1, 2, 3]\<close>; the map raises \<^verbatim>\<open>NameError\<close> and the
  remainder stays empty.
\<close>

theorem map_batched_differs_from_packing_spec_fold:
  "map_batched (\<lambda>s. chunk s 4) [tokenized [[1, 2, 3]] [[1, 1, 1]]] \<lparr>remainder = remainder_init\<rparr>
     = (Inl NameError, \<lparr>remainder = remainder_init\<rparr>)
   \<and> packing_spec_fold 4 [[[1, 2, 3 :: int]]] = ([], [1, 2, 3])
   \<and> packing_spec_fold 4 [[[1, 1, 1 :: int]]] = ([], [1, 1, 1])"
  by code_simp

end
